theory Spec2Isabelle
  imports
    Main
    "HOL-Library.FSet"
    "HOL-Library.Char_ord"
    "HOL-Library.List_Lexorder"
    "HOL-Library.Product_Lexorder"
    "HOL-Library.Multiset"
begin

section \<open>Python values used by \<open>britney2/excuse.py\<close>\<close>

text \<open>
  Strings are \<open>char list\<close>, ordered by code point and then lexicographically, as Python
  orders \<open>str\<close>. A Python \<open>set\<close> is a finite set (\<open>fset\<close>); \<open>sorted(s)\<close> of a set is
  \<open>sorted_list_of_fset\<close>. A Python \<open>dict\<close> is an association list in insertion order:
  \<open>d[k] = v\<close> replaces the value in place when the key is present and appends the pair
  otherwise.
\<close>

datatype error = TypeError | IndexError | UnboundLocalError

type_synonym ('k, 'v) dict = "('k \<times> 'v) list"

definition dict_keys :: "('k, 'v) dict \<Rightarrow> 'k list" where
  "dict_keys d = map fst d"

definition dict_in :: "'k \<Rightarrow> ('k, 'v) dict \<Rightarrow> bool" where
  "dict_in k d = (k \<in> set (dict_keys d))"

fun dict_set :: "'k \<Rightarrow> 'v \<Rightarrow> ('k, 'v) dict \<Rightarrow> ('k, 'v) dict" where
  "dict_set k v [] = [(k, v)]"
| "dict_set k v (p # ps) = (if fst p = k then (k, v) # ps else p # dict_set k v ps)"

text \<open>\<open>s.split(c)[0]\<close>: the part of \<open>s\<close> before the first \<open>c\<close> (all of \<open>s\<close> without one).\<close>

definition split_first :: "char \<Rightarrow> string \<Rightarrow> string" where
  "split_first c s = takeWhile (\<lambda>x. x \<noteq> c) s"

text \<open>Truthiness of an optional string (\<open>None\<close> and \<open>""\<close> are false).\<close>

fun truthy :: "string option \<Rightarrow> bool" where
  "truthy None = False"
| "truthy (Some s) = (s \<noteq> [])"

text \<open>\<open>"%d" % i\<close> for an integer.\<close>

fun digits :: "nat \<Rightarrow> string" where
  "digits n =
     (if n < 10 then [''0123456789'' ! n]
      else digits (n div 10) @ [''0123456789'' ! (n mod 10)])"

definition show_int :: "int \<Rightarrow> string" where
  "show_int i = (if i < 0 then CHR ''-'' # digits (nat (- i)) else digits (nat i))"

text \<open>The values of the structured document (what \<open>excusedata\<close> puts in its dict).\<close>

datatype json =
    JStr string
  | JBool bool
  | JList "json list"
  | JDict "(string \<times> json) list"

section \<open>The verdict enumeration\<close>

text \<open>
  \<open>PolicyVerdict\<close> is imported from \<open>britney2.policies.policy\<close>; these are the members
  that \<open>excuse.py\<close> names (the keys of \<open>VERDICT2DESC\<close>). \<open>verdict_name\<close> is the
  attribute \<open>name\<close> of a member of a Python enumeration.
\<close>

datatype PolicyVerdict =
    PASS
  | PASS_HINTED
  | REJECTED_TEMPORARILY
  | REJECTED_WAITING_FOR_ANOTHER_ITEM
  | REJECTED_BLOCKED_BY_ANOTHER_ITEM
  | REJECTED_NEEDS_APPROVAL
  | REJECTED_CANNOT_DETERMINE_IF_PERMANENT
  | REJECTED_PERMANENTLY

fun verdict_name :: "PolicyVerdict \<Rightarrow> string" where
  "verdict_name PASS = ''PASS''"
| "verdict_name PASS_HINTED = ''PASS_HINTED''"
| "verdict_name REJECTED_TEMPORARILY = ''REJECTED_TEMPORARILY''"
| "verdict_name REJECTED_WAITING_FOR_ANOTHER_ITEM = ''REJECTED_WAITING_FOR_ANOTHER_ITEM''"
| "verdict_name REJECTED_BLOCKED_BY_ANOTHER_ITEM = ''REJECTED_BLOCKED_BY_ANOTHER_ITEM''"
| "verdict_name REJECTED_NEEDS_APPROVAL = ''REJECTED_NEEDS_APPROVAL''"
| "verdict_name REJECTED_CANNOT_DETERMINE_IF_PERMANENT =
     ''REJECTED_CANNOT_DETERMINE_IF_PERMANENT''"
| "verdict_name REJECTED_PERMANENTLY = ''REJECTED_PERMANENTLY''"

text \<open>
  Modelled from the spec: the property \<open>is_rejected\<close> of \<open>PolicyVerdict\<close>, whose class
  (\<open>britney2/policies/policy.py\<close>) is not among the sources. The spec lists the outcomes
  pass, pass-by-hint and six rejected ones, and derives acceptability as not being a
  reject: the two pass outcomes are not rejected, the six rejected outcomes are.
\<close>

fun is_rejected :: "PolicyVerdict \<Rightarrow> bool" where
  "is_rejected PASS = False"
| "is_rejected PASS_HINTED = False"
| "is_rejected REJECTED_TEMPORARILY = True"
| "is_rejected REJECTED_WAITING_FOR_ANOTHER_ITEM = True"
| "is_rejected REJECTED_BLOCKED_BY_ANOTHER_ITEM = True"
| "is_rejected REJECTED_NEEDS_APPROVAL = True"
| "is_rejected REJECTED_CANNOT_DETERMINE_IF_PERMANENT = True"
| "is_rejected REJECTED_PERMANENTLY = True"

definition VERDICT2DESC :: "(PolicyVerdict, string) dict" where
  "VERDICT2DESC =
    [(PASS,
      ''Will attempt migration (Any information below is purely informational)''),
     (PASS_HINTED,
      ''Will attempt migration due to a hint (Any information below is purely informational)''),
     (REJECTED_TEMPORARILY,
      ''Waiting for test results, another package or too young (no action required now - check later)''),
     (REJECTED_WAITING_FOR_ANOTHER_ITEM,
      ''Waiting for another item to be ready to migrate (no action required now - check later)''),
     (REJECTED_BLOCKED_BY_ANOTHER_ITEM,
      ''BLOCKED: Cannot migrate due to another item, which is blocked (please check which dependencies are stuck)''),
     (REJECTED_NEEDS_APPROVAL,
      ''BLOCKED: Needs an approval (either due to a freeze, the source suite or a manual hint)''),
     (REJECTED_CANNOT_DETERMINE_IF_PERMANENT,
      ''BLOCKED: Maybe temporary, maybe blocked but Britney is missing information (check below or the buildds)''),
     (REJECTED_PERMANENTLY,
      ''BLOCKED: Rejected/introduces a regression'')]"

section \<open>The Excuse record\<close>

text \<open>A hint object, as far as this class reads it: \<open>h.type\<close> and \<open>h.user\<close>.\<close>

record Hint =
  hint_type :: string
  hint_user :: string

text \<open>
  The fields that \<open>__init__\<close> creates. The dependency kind \<open>'k\<close> stands for the
  enumeration \<open>DependencyType\<close> of \<open>britney2/__init__.py\<close>, which this class only stores,
  compares and prints. \<open>priv_is_valid\<close> and \<open>priv_policy_verdict\<close> are the attributes
  \<open>_is_valid\<close> and \<open>_policy_verdict\<close>; \<open>section_attr\<close> is \<open>section\<close>.
\<close>

record 'k Excuse =
  name :: string
  ver :: "string \<times> string"
  maint :: "string option"
  daysold :: "int option"
  mindays :: "int option"
  section_attr :: "string option"
  priv_is_valid :: bool
  needs_approval :: bool
  hints :: "Hint list"
  forced :: bool
  priv_policy_verdict :: PolicyVerdict
  all_invalid_deps :: "string fset"
  all_deps :: "(string, ('k, string list) dict) dict"
  sane_deps :: "string list"
  break_deps :: "(string \<times> string) list"
  unsatisfiable_on_archs :: "string list"
  unsat_deps :: "(string, string fset) dict"
  newbugs :: "string fset"
  oldbugs :: "string fset"
  reason :: "(string, int) dict"
  htmlline :: "string list"
  missing_builds :: "string fset"
  missing_builds_ood_arch :: "string fset"
  old_binaries :: "(string, string fset) dict"
  policy_info :: "(string, json) dict"
  bounty :: "(string, int) dict"
  penalty :: "(string, int) dict"

definition Excuse_init :: "string \<Rightarrow> 'k Excuse" where
  "Excuse_init nm =
     \<lparr> name = nm,
       ver = (''-'', ''-''),
       maint = None,
       daysold = None,
       mindays = None,
       section_attr = None,
       priv_is_valid = False,
       needs_approval = False,
       hints = [],
       forced = False,
       priv_policy_verdict = REJECTED_PERMANENTLY,
       all_invalid_deps = {||},
       all_deps = [],
       sane_deps = [],
       break_deps = [],
       unsatisfiable_on_archs = [],
       unsat_deps = [],
       newbugs = {||},
       oldbugs = {||},
       reason = [],
       htmlline = [],
       missing_builds = {||},
       missing_builds_ood_arch = {||},
       old_binaries = [],
       policy_info = [],
       bounty = [],
       penalty = [] \<rparr>"

definition sortkey :: "'k Excuse \<Rightarrow> int \<times> string" where
  "sortkey e = (case daysold e of None \<Rightarrow> (- 1, name e) | Some d \<Rightarrow> (d, name e))"

definition is_valid :: "'k Excuse \<Rightarrow> bool" where
  "is_valid e = (if is_rejected (priv_policy_verdict e) then False else True)"

definition policy_verdict :: "'k Excuse \<Rightarrow> PolicyVerdict" where
  "policy_verdict e = priv_policy_verdict e"

text \<open>The setter of the property \<open>policy_verdict\<close>.\<close>

definition set_policy_verdict :: "PolicyVerdict \<Rightarrow> 'k Excuse \<Rightarrow> 'k Excuse" where
  "set_policy_verdict v e =
     (let v' = (if is_rejected v \<and> forced e then PASS_HINTED else v)
      in e\<lparr>priv_policy_verdict := v'\<rparr>)"

definition set_vers :: "string option \<Rightarrow> string option \<Rightarrow> 'k Excuse \<Rightarrow> 'k Excuse" where
  "set_vers tver uver e =
     (if truthy tver \<and> truthy uver then e\<lparr>ver := (the tver, the uver)\<rparr>
      else if truthy tver then e\<lparr>ver := (the tver, snd (ver e))\<rparr>
      else if truthy uver then e\<lparr>ver := (fst (ver e), the uver)\<rparr>
      else e)"

text \<open>
  \<open>set_maint\<close> removes every match of the regular expression \<open>" *<.*?>"\<close>: a run of
  spaces, \<open><\<close>, the shortest run of characters other than a newline, and \<open>>\<close>.
  \<open>match_gt\<close> is the part after \<open><\<close>, \<open>reemail_match\<close> a match at the start of the
  string (it gives what follows the match), \<open>reemail_sub\<close> the substitution of all
  matches from left to right.
\<close>

fun match_gt :: "string \<Rightarrow> string option" where
  "match_gt [] = None"
| "match_gt (c # cs) =
     (if c = CHR ''>'' then Some cs
      else if c = CHR 0x0A then None
      else match_gt cs)"

definition reemail_match :: "string \<Rightarrow> string option" where
  "reemail_match s =
     (case dropWhile (\<lambda>c. c = CHR '' '') s of
        [] \<Rightarrow> None
      | c # cs \<Rightarrow> if c = CHR ''<'' then match_gt cs else None)"

function reemail_sub :: "string \<Rightarrow> string" where
  "reemail_sub [] = []"
| "reemail_sub (c # cs) =
     (case reemail_match (c # cs) of
        Some r \<Rightarrow> reemail_sub r
      | None \<Rightarrow> c # reemail_sub cs)"
  by pat_completeness auto
termination
proof (relation "measure length")
  show "wf (measure (length :: string \<Rightarrow> nat))"
    by simp
next
  fix c :: char and cs r :: string
  assume m: "reemail_match (c # cs) = Some r"
  have gt: "length b < length a" if "match_gt a = Some b" for a b
    using that by (induction a) (auto split: if_splits)
  have le: "length (dropWhile (\<lambda>x. x = CHR '' '') (c # cs)) \<le> length (c # cs)"
    by (rule length_dropWhile_le)
  from m obtain ds where d: "dropWhile (\<lambda>x. x = CHR '' '') (c # cs) = CHR ''<'' # ds"
    and g: "match_gt ds = Some r"
    by (auto simp: reemail_match_def split: list.splits if_splits)
  from g have "length r < length ds"
    by (rule gt)
  with le d have "length r < length (c # cs)"
    by simp
  then show "(r, c # cs) \<in> measure length"
    by simp
next
  fix c :: char and cs :: string
  show "(cs, c # cs) \<in> measure length"
    by simp
qed

definition set_maint :: "string \<Rightarrow> 'k Excuse \<Rightarrow> 'k Excuse" where
  "set_maint m e = e\<lparr>maint := Some (reemail_sub m)\<rparr>"

definition set_section :: "string \<Rightarrow> 'k Excuse \<Rightarrow> 'k Excuse" where
  "set_section s e = e\<lparr>section_attr := Some s\<rparr>"

definition add_dependency :: "'k \<Rightarrow> string \<Rightarrow> string \<Rightarrow> 'k Excuse \<Rightarrow> 'k Excuse" where
  "add_dependency deptype nm arch e =
     (let kinds = (case map_of (all_deps e) nm of None \<Rightarrow> [] | Some d \<Rightarrow> d);
          archs = (case map_of kinds deptype of None \<Rightarrow> [] | Some a \<Rightarrow> a)
      in e\<lparr>all_deps := dict_set nm (dict_set deptype (archs @ [arch]) kinds) (all_deps e)\<rparr>)"

text \<open>\<open>get_deps\<close> takes the member \<open>DependencyType.DEPENDS\<close> as \<open>depends\<close>.\<close>

definition get_deps :: "'k \<Rightarrow> 'k Excuse \<Rightarrow> string fset" where
  "get_deps depends e =
     fset_of_list (map fst (filter (\<lambda>(dep, kinds). dict_in depends kinds) (all_deps e)))"

definition add_sane_dep :: "string \<Rightarrow> 'k Excuse \<Rightarrow> 'k Excuse" where
  "add_sane_dep nm e =
     (if nm \<notin> set (sane_deps e) then e\<lparr>sane_deps := sane_deps e @ [nm]\<rparr> else e)"

definition add_break_dep :: "string \<Rightarrow> string \<Rightarrow> 'k Excuse \<Rightarrow> 'k Excuse" where
  "add_break_dep nm arch e =
     (if (nm, arch) \<notin> set (break_deps e) then e\<lparr>break_deps := break_deps e @ [(nm, arch)]\<rparr>
      else e)"

definition add_unsatisfiable_on_arch :: "string \<Rightarrow> 'k Excuse \<Rightarrow> 'k Excuse" where
  "add_unsatisfiable_on_arch arch e =
     (if arch \<notin> set (unsatisfiable_on_archs e)
      then e\<lparr>unsatisfiable_on_archs := unsatisfiable_on_archs e @ [arch]\<rparr>
      else e)"

text \<open>
  \<open>d[k].add(x)\<close> on a \<open>defaultdict(set)\<close>: a missing key is created with the empty set
  first.
\<close>

definition defaultdict_add :: "string \<Rightarrow> string \<Rightarrow> (string, string fset) dict
    \<Rightarrow> (string, string fset) dict" where
  "defaultdict_add k x d =
     dict_set k (finsert x (case map_of d k of None \<Rightarrow> {||} | Some s \<Rightarrow> s)) d"

definition add_unsatisfiable_dep :: "string \<Rightarrow> string \<Rightarrow> 'k Excuse \<Rightarrow> 'k Excuse" where
  "add_unsatisfiable_dep signature arch e =
     e\<lparr>unsat_deps := defaultdict_add arch signature (unsat_deps e)\<rparr>"

definition invalidate_dependency :: "string \<Rightarrow> 'k Excuse \<Rightarrow> 'k Excuse" where
  "invalidate_dependency nm e = e\<lparr>all_invalid_deps := finsert nm (all_invalid_deps e)\<rparr>"

definition setdaysold :: "int option \<Rightarrow> int option \<Rightarrow> 'k Excuse \<Rightarrow> 'k Excuse" where
  "setdaysold d m e = e\<lparr>daysold := d, mindays := m\<rparr>"

text \<open>\<open>force\<close> returns its boolean together with the updated record.\<close>

definition force :: "'k Excuse \<Rightarrow> bool \<times> 'k Excuse" where
  "force e =
     (let e1 = e\<lparr>forced := True\<rparr>
      in if is_rejected (priv_policy_verdict e1)
         then (True, e1\<lparr>priv_policy_verdict := PASS_HINTED\<rparr>)
         else (False, e1))"

definition addhtml :: "string \<Rightarrow> 'k Excuse \<Rightarrow> 'k Excuse" where
  "addhtml note e = e\<lparr>htmlline := htmlline e @ [note]\<rparr>"

definition missing_build_on_arch :: "string \<Rightarrow> 'k Excuse \<Rightarrow> 'k Excuse" where
  "missing_build_on_arch arch e = e\<lparr>missing_builds := finsert arch (missing_builds e)\<rparr>"

definition missing_build_on_ood_arch :: "string \<Rightarrow> 'k Excuse \<Rightarrow> 'k Excuse" where
  "missing_build_on_ood_arch arch e = e\<lparr>missing_builds := finsert arch (missing_builds e)\<rparr>"

definition add_old_binary :: "string \<Rightarrow> string \<Rightarrow> 'k Excuse \<Rightarrow> 'k Excuse" where
  "add_old_binary binary from_source_version e =
     e\<lparr>old_binaries := defaultdict_add from_source_version binary (old_binaries e)\<rparr>"

definition add_hint :: "Hint \<Rightarrow> 'k Excuse \<Rightarrow> 'k Excuse" where
  "add_hint h e = e\<lparr>hints := hints e @ [h]\<rparr>"

definition setbugs :: "string fset \<Rightarrow> string fset \<Rightarrow> 'k Excuse \<Rightarrow> 'k Excuse" where
  "setbugs old new e = e\<lparr>newbugs := newbugs e |\<union>| new, oldbugs := oldbugs e |\<union>| old\<rparr>"

definition addreason :: "string \<Rightarrow> 'k Excuse \<Rightarrow> 'k Excuse" where
  "addreason r e = e\<lparr>reason := dict_set r 1 (reason e)\<rparr>"

definition add_bounty :: "string \<Rightarrow> int \<Rightarrow> 'k Excuse \<Rightarrow> 'k Excuse" where
  "add_bounty policy b e = e\<lparr>bounty := dict_set policy b (bounty e)\<rparr>"

definition add_penalty :: "string \<Rightarrow> int \<Rightarrow> 'k Excuse \<Rightarrow> 'k Excuse" where
  "add_penalty policy p e = e\<lparr>penalty := dict_set policy p (penalty e)\<rparr>"

section \<open>Rendering in HTML\<close>

definition format_verdict_summary :: "'k Excuse \<Rightarrow> string" where
  "format_verdict_summary e =
     (let verdict = priv_policy_verdict e
      in case map_of VERDICT2DESC verdict of
           Some desc \<Rightarrow> desc
         | None \<Rightarrow> ''UNKNOWN: Missing description for '' @ verdict_name verdict
                    @ '' - Please file a bug against Britney'')"

text \<open>
  \<open>_render_dep_issues\<close>. The local \<open>seen\<close> is bound only once a name's part before
  \<open>/\<close> differs from \<open>lastdep\<close>, which starts as the empty string: \<open>None\<close> is the
  unbound local, and testing \<open>deptype in seen\<close> then raises. \<open>kstr\<close> is \<open>str\<close> on a
  dependency kind. The inner loop is \<open>render_kinds\<close>, the outer one \<open>render_names\<close>;
  both thread \<open>seen\<close> and the list \<open>res\<close>.
\<close>

definition dep_line :: "('k \<Rightarrow> string) \<Rightarrow> string \<Rightarrow> 'k \<Rightarrow> string \<Rightarrow> bool \<Rightarrow> string" where
  "dep_line kstr nm field dep invalid =
     ''<li>'' @ kstr field @ '': '' @ nm @ '' <a href=\"#'' @ dep @ ''\">'' @ dep @ ''</a>''
     @ (if invalid then '' (not considered)\<newline>'' else ''\<newline>'')"

fun render_kinds :: "('k \<Rightarrow> string) \<Rightarrow> string \<Rightarrow> string \<Rightarrow> bool \<Rightarrow> 'k list
    \<Rightarrow> 'k list option \<Rightarrow> string list \<Rightarrow> error + ('k list option \<times> string list)" where
  "render_kinds kstr nm dep invalid [] seen res = Inr (seen, res)"
| "render_kinds kstr nm dep invalid (deptype # rest) seen res =
     (case seen of
        None \<Rightarrow> Inl UnboundLocalError
      | Some s \<Rightarrow>
          if deptype \<in> set s then render_kinds kstr nm dep invalid rest seen res
          else render_kinds kstr nm dep invalid rest (Some (deptype # s))
                 (res @ [dep_line kstr nm deptype dep invalid]))"

fun render_names :: "('k \<Rightarrow> string) \<Rightarrow> string \<Rightarrow> (string, ('k, string list) dict) dict
    \<Rightarrow> string fset \<Rightarrow> string list \<Rightarrow> string \<Rightarrow> 'k list option \<Rightarrow> string list
    \<Rightarrow> error + string list" where
  "render_names kstr nm dep_issues invalid_deps [] lastdep seen res = Inr res"
| "render_names kstr nm dep_issues invalid_deps (x # xs) lastdep seen res =
     (let dep = split_first CHR ''/'' x;
          seen1 = (if dep \<noteq> lastdep then Some [] else seen);
          kinds = (case map_of dep_issues x of None \<Rightarrow> [] | Some d \<Rightarrow> d)
      in case render_kinds kstr nm dep (x |\<in>| invalid_deps)
                (sort_key kstr (dict_keys kinds)) seen1 res of
           Inl err \<Rightarrow> Inl err
         | Inr (seen2, res2) \<Rightarrow>
             render_names kstr nm dep_issues invalid_deps xs dep seen2 res2)"

definition render_dep_issues :: "('k \<Rightarrow> string) \<Rightarrow> 'k Excuse
    \<Rightarrow> (string, ('k, string list) dict) dict \<Rightarrow> string fset \<Rightarrow> error + string" where
  "render_dep_issues kstr e dep_issues invalid_deps =
     (case render_names kstr (name e) dep_issues invalid_deps
             (sort_key (split_first CHR ''/'') (dict_keys dep_issues)) '''' None [] of
        Inl err \<Rightarrow> Inl err
      | Inr res \<Rightarrow> Inr (concat res))"

text \<open>
  The line about the age. With \<open>daysold\<close> set and \<open>mindays\<close> still \<open>None\<close> the comparison
  \<open>self.daysold < self.mindays\<close> raises \<open>TypeError\<close>.
\<close>

definition age_line :: "'k Excuse \<Rightarrow> error + string" where
  "age_line e =
     (case daysold e of
        None \<Rightarrow> Inr ''''
      | Some d \<Rightarrow>
          (case mindays e of
             None \<Rightarrow> Inl TypeError
           | Some m \<Rightarrow>
               if m = 0 then Inr (''<li>'' @ show_int d @ '' days old\<newline>'')
               else if d < m
               then Inr (''<li>Too young, only '' @ show_int d @ '' of '' @ show_int m
                         @ '' days old\<newline>'')
               else Inr (''<li>'' @ show_int d @ '' days old (needed '' @ show_int m
                         @ '' days)\<newline>'')))"

definition section_has_slash :: "'k Excuse \<Rightarrow> bool" where
  "section_has_slash e =
     (truthy (section_attr e) \<and> CHR ''/'' \<in> set (the (section_attr e)))"

definition html :: "('k \<Rightarrow> string) \<Rightarrow> 'k Excuse \<Rightarrow> error + string" where
  "html kstr e =
     (let res0 = ''<a id=\"'' @ name e @ ''\" name=\"'' @ name e @ ''\">'' @ name e
                 @ ''</a> ('' @ fst (ver e) @ '' to '' @ snd (ver e) @ '')\<newline><ul>\<newline>'';
          res1 = res0 @ ''<li>Migration status: '' @ format_verdict_summary e @ ''\<newline>'';
          res2 = (if truthy (maint e)
                  then res1 @ ''<li>Maintainer: '' @ the (maint e) @ ''\<newline>'' else res1);
          res3 = (if section_has_slash e
                  then res2 @ ''<li>Section: '' @ the (section_attr e) @ ''\<newline>''
                  else res2)
      in case age_line e of
           Inl err \<Rightarrow> Inl err
         | Inr age \<Rightarrow>
             (let res4 = res3 @ age;
                  res5 = res4 @ concat (map (\<lambda>x. ''<li>'' @ x @ ''\<newline>'') (htmlline e))
              in case render_dep_issues kstr e (all_deps e) (all_invalid_deps e) of
                   Inl err \<Rightarrow> Inl err
                 | Inr deps \<Rightarrow>
                     (let res6 = res5 @ deps;
                          res7 = res6 @ concat (map (\<lambda>(n, a).
                                   if \<not> dict_in n (all_deps e)
                                   then ''<li>Ignoring '' @ a @ '' depends: <a href=\"#'' @ n
                                        @ ''\">'' @ n @ ''</a>\<newline>''
                                   else '''') (break_deps e))
                      in Inr (res7 @ ''</ul>\<newline>''))))"

section \<open>Rendering as key-value data\<close>

definition excuse_text :: "'k Excuse \<Rightarrow> string list" where
  "excuse_text e = map (\<lambda>x. '''' @ x @ '''') (htmlline e)"

text \<open>
  The first lines of \<open>excusedata\<close>, which derive \<open>source\<close> from the name.
  \<open>source[0]\<close> raises \<open>IndexError\<close> on the empty string.
\<close>

definition derive_source :: "string \<Rightarrow> error + string" where
  "derive_source nm =
     (let source = nm;
          source = (if CHR ''_'' \<in> set source then split_first CHR ''_'' source else source);
          source = (if CHR ''/'' \<in> set source then split_first CHR ''/'' source else source)
      in case source of
           [] \<Rightarrow> Inl IndexError
         | c # cs \<Rightarrow> if c = CHR ''-'' then Inr cs else Inr source)"

definition jstrs :: "string list \<Rightarrow> json" where
  "jstrs xs = JList (map JStr xs)"

definition dependencies_data :: "'k Excuse \<Rightarrow> (string, json) dict" where
  "dependencies_data e =
     (let migrate_after =
            sorted_list_of_fset (fset_of_list (dict_keys (all_deps e)) |-| all_invalid_deps e);
          break_deps1 = filter (\<lambda>x. \<not> dict_in x (all_deps e)) (map fst (break_deps e))
      in (if all_invalid_deps e \<noteq> {||}
          then [(''blocked-by'', jstrs (sorted_list_of_fset (all_invalid_deps e)))] else [])
       @ (if migrate_after \<noteq> [] then [(''migrate-after'', jstrs migrate_after)] else [])
       @ (if break_deps1 \<noteq> []
          then [(''unimportant-dependencies'', jstrs (sort break_deps1))] else [])
       @ (if unsat_deps e \<noteq> []
          then [(''unsatisfiable-dependencies'',
                 JDict (map (\<lambda>(x, s). (x, jstrs (sorted_list_of_fset s))) (unsat_deps e)))]
          else []))"

definition excusedata :: "'k Excuse \<Rightarrow> error + (string, json) dict" where
  "excusedata e =
     (case derive_source (name e) of
        Inl err \<Rightarrow> Inl err
      | Inr source \<Rightarrow> Inr (
          [(''excuses'', jstrs (excuse_text e)),
           (''item-name'', JStr (name e)),
           (''source'', JStr source),
           (''migration-policy-verdict'', JStr (verdict_name (priv_policy_verdict e))),
           (''old-version'', JStr (fst (ver e))),
           (''new-version'', JStr (snd (ver e)))]
        @ (if truthy (maint e) then [(''maintainer'', JStr (the (maint e)))] else [])
        @ (if section_has_slash e
           then [(''component'', JStr (split_first CHR ''/'' (the (section_attr e))))] else [])
        @ (if policy_info e \<noteq> [] then [(''policy_info'', JDict (policy_info e))] else [])
        @ (if missing_builds e \<noteq> {||} \<or> missing_builds_ood_arch e \<noteq> {||}
           then [(''missing-builds'', JDict
                   [(''on-architectures'', jstrs (sorted_list_of_fset (missing_builds e))),
                    (''on-unimportant-architectures'',
                       jstrs (sorted_list_of_fset (missing_builds_ood_arch e)))])]
           else [])
        @ (if all_invalid_deps e \<noteq> {||}
           then [(''invalidated-by-other-package'', JBool True)] else [])
        @ (if all_deps e \<noteq> [] \<or> all_invalid_deps e \<noteq> {||}
              \<or> break_deps e \<noteq> [] \<or> unsat_deps e \<noteq> []
           then [(''dependencies'', JDict (dependencies_data e))] else [])
        @ (if needs_approval e
           then [(''manual-approval-status'',
                  JStr (if list_ex (\<lambda>h. hint_type h = ''unblock'') (hints e)
                        then ''approved'' else ''not-approved''))]
           else [])
        @ (if hints e \<noteq> []
           then [(''hints'', JList (map (\<lambda>h. JDict [(''hint-type'', JStr (hint_type h)),
                                                     (''hint-from'', JStr (hint_user h))])
                                      (hints e)))]
           else [])
        @ (if old_binaries e \<noteq> []
           then [(''old-binaries'',
                  JDict (map (\<lambda>(x, s). (x, jstrs (sorted_list_of_fset s))) (old_binaries e)))]
           else [])
        @ (if forced e
           then [(''forced-reason'', jstrs (sort (dict_keys (reason e)))),
                 (''reason'', JList [])]
           else [(''reason'', jstrs (sort (dict_keys (reason e))))])
        @ [(''is-candidate'', JBool (is_valid e))]))"

section \<open>Sequences of method calls\<close>

text \<open>
  The methods of the class that change a record, as a datatype of calls; \<open>apply_call\<close>
  performs one of them (the boolean that \<open>force\<close> returns is dropped) and \<open>run\<close>
  performs a sequence of calls from left to right.
\<close>

datatype 'k call =
    Set_policy_verdict PolicyVerdict
  | Set_vers "string option" "string option"
  | Set_maint string
  | Set_section string
  | Add_dependency 'k string string
  | Add_sane_dep string
  | Add_break_dep string string
  | Add_unsatisfiable_on_arch string
  | Add_unsatisfiable_dep string string
  | Invalidate_dependency string
  | Setdaysold "int option" "int option"
  | Force
  | Addhtml string
  | Missing_build_on_arch string
  | Missing_build_on_ood_arch string
  | Add_old_binary string string
  | Add_hint Hint
  | Setbugs "string fset" "string fset"
  | Addreason string
  | Add_bounty string int
  | Add_penalty string int

fun apply_call :: "'k call \<Rightarrow> 'k Excuse \<Rightarrow> 'k Excuse" where
  "apply_call (Set_policy_verdict v) e = set_policy_verdict v e"
| "apply_call (Set_vers tver uver) e = set_vers tver uver e"
| "apply_call (Set_maint m) e = set_maint m e"
| "apply_call (Set_section s) e = set_section s e"
| "apply_call (Add_dependency deptype nm arch) e = add_dependency deptype nm arch e"
| "apply_call (Add_sane_dep nm) e = add_sane_dep nm e"
| "apply_call (Add_break_dep nm arch) e = add_break_dep nm arch e"
| "apply_call (Add_unsatisfiable_on_arch arch) e = add_unsatisfiable_on_arch arch e"
| "apply_call (Add_unsatisfiable_dep signature arch) e = add_unsatisfiable_dep signature arch e"
| "apply_call (Invalidate_dependency nm) e = invalidate_dependency nm e"
| "apply_call (Setdaysold d m) e = setdaysold d m e"
| "apply_call Force e = snd (force e)"
| "apply_call (Addhtml note) e = addhtml note e"
| "apply_call (Missing_build_on_arch arch) e = missing_build_on_arch arch e"
| "apply_call (Missing_build_on_ood_arch arch) e = missing_build_on_ood_arch arch e"
| "apply_call (Add_old_binary binary v) e = add_old_binary binary v e"
| "apply_call (Add_hint h) e = add_hint h e"
| "apply_call (Setbugs old new) e = setbugs old new e"
| "apply_call (Addreason r) e = addreason r e"
| "apply_call (Add_bounty policy b) e = add_bounty policy b e"
| "apply_call (Add_penalty policy p) e = add_penalty policy p e"

definition run :: "'k call list \<Rightarrow> 'k Excuse \<Rightarrow> 'k Excuse" where
  "run calls e = fold apply_call calls e"

text \<open>The calls that assign a verdict: the setter and \<open>force\<close>.\<close>

fun assigns_verdict :: "'k call \<Rightarrow> bool" where
  "assigns_verdict (Set_policy_verdict v) = True"
| "assigns_verdict Force = True"
| "assigns_verdict c = False"

section \<open>What the specification says, for comparison with the code\<close>

text \<open>
  The source identifier in the specification's words: strip what follows the first
  \<open>_\<close>, then what follows the first \<open>/\<close>, then a single leading \<open>-\<close>.
\<close>

definition spec_source :: "string \<Rightarrow> string" where
  "spec_source nm =
     (let s = split_first CHR ''/'' (split_first CHR ''_'' nm)
      in case s of [] \<Rightarrow> [] | c # cs \<Rightarrow> if c = CHR ''-'' then cs else s)"

text \<open>
  The order of presentation in the specification's words: records of unknown age first,
  then ascending by the days elapsed, ties broken by the name.
\<close>

definition presented_before :: "'k Excuse \<Rightarrow> 'k Excuse \<Rightarrow> bool" where
  "presented_before a b =
     (case (daysold a, daysold b) of
        (None, None) \<Rightarrow> name a \<le> name b
      | (None, Some y) \<Rightarrow> True
      | (Some x, None) \<Rightarrow> False
      | (Some x, Some y) \<Rightarrow> x < y \<or> (x = y \<and> name a \<le> name b))"

text \<open>\<open>sorted(excuses, key=Excuse.sortkey)\<close>: Python's sort is stable, as \<open>sort_key\<close> is.\<close>

definition sorted_by_sortkey :: "'k Excuse list \<Rightarrow> 'k Excuse list" where
  "sorted_by_sortkey es = sort_key sortkey es"

section \<open>Lemmas\<close>

subsection \<open>Sequences of calls\<close>

lemma name_init: "name (Excuse_init nm) = nm"
  by (simp add: Excuse_init_def)

lemmas call_defs =
  set_policy_verdict_def set_vers_def set_maint_def set_section_def add_dependency_def
  add_sane_dep_def add_break_dep_def add_unsatisfiable_on_arch_def add_unsatisfiable_dep_def
  invalidate_dependency_def setdaysold_def force_def addhtml_def missing_build_on_arch_def
  missing_build_on_ood_arch_def add_old_binary_def add_hint_def setbugs_def addreason_def
  add_bounty_def add_penalty_def

lemma apply_call_forced_valid:
  "(forced e \<longrightarrow> is_valid e) \<Longrightarrow> forced (apply_call c e) \<longrightarrow> is_valid (apply_call c e)"
  by (cases c) (auto simp: call_defs is_valid_def Let_def)

lemma run_forced_valid:
  "(forced e \<longrightarrow> is_valid e) \<Longrightarrow> forced (run calls e) \<longrightarrow> is_valid (run calls e)"
  unfolding run_def
proof (induction calls arbitrary: e)
  case Nil
  then show ?case by simp
next
  case (Cons c calls)
  from Cons.prems have "forced (apply_call c e) \<longrightarrow> is_valid (apply_call c e)"
    by (rule apply_call_forced_valid)
  then show ?case
    using Cons.IH by simp
qed

lemma apply_call_keeps_verdict:
  "\<not> assigns_verdict c \<Longrightarrow>
     priv_policy_verdict (apply_call c e) = priv_policy_verdict e
     \<and> forced (apply_call c e) = forced e"
  by (cases c) (auto simp: call_defs Let_def)

lemma apply_call_name: "name (apply_call c e) = name e"
  by (cases c) (auto simp: call_defs Let_def)

lemma run_name: "name (run calls e) = name e"
  unfolding run_def by (induction calls arbitrary: e) (simp_all add: apply_call_name)

lemma run_keeps_verdict:
  "list_all (\<lambda>c. \<not> assigns_verdict c) calls \<Longrightarrow>
     priv_policy_verdict (run calls e) = priv_policy_verdict e \<and> forced (run calls e) = forced e"
  unfolding run_def
  by (induction calls arbitrary: e) (simp_all add: apply_call_keeps_verdict)

subsection \<open>The derived source\<close>

lemma split_first_absent: "c \<notin> set s \<Longrightarrow> split_first c s = s"
  by (auto simp: split_first_def)

lemma derive_source_stem:
  "derive_source nm =
     (case split_first CHR ''/'' (split_first CHR ''_'' nm) of
        [] \<Rightarrow> Inl IndexError
      | c # cs \<Rightarrow> Inr (if c = CHR ''-'' then cs else c # cs))"
proof -
  have a: "(if CHR ''_'' \<in> set nm then split_first CHR ''_'' nm else nm) = split_first CHR ''_'' nm"
    by (simp add: split_first_absent)
  have b: "(if CHR ''/'' \<in> set s then split_first CHR ''/'' s else s) = split_first CHR ''/'' s"
    for s
    by (simp add: split_first_absent)
  show ?thesis
    unfolding derive_source_def Let_def a b
    by (simp split: list.splits)
qed

lemma derive_source_eq:
  "derive_source nm =
     (if split_first CHR ''/'' (split_first CHR ''_'' nm) = [] then Inl IndexError
      else Inr (spec_source nm))"
  by (simp add: derive_source_stem spec_source_def Let_def split: list.splits)

subsection \<open>Keys of the structured document\<close>

lemma map_of_if: "map_of (if c then xs else ys) k = (if c then map_of xs k else map_of ys k)"
  by simp

lemma map_of_app:
  "map_of (xs @ ys) k = (case map_of xs k of None \<Rightarrow> map_of ys k | Some v \<Rightarrow> Some v)"
  by (simp add: map_add_def)

lemma excusedata_Inl: "derive_source (name e) = Inl err \<Longrightarrow> excusedata e = Inl err"
  by (simp add: excusedata_def)

lemma excusedata_is_candidate:
  "excusedata e = Inr doc \<Longrightarrow> map_of doc ''is-candidate'' = Some (JBool (is_valid e))"
  by (auto simp del: map_of_append simp add: excusedata_def map_of_app map_of_if
      split: sum.splits split del: if_split cong: if_cong)

lemma excusedata_excuses:
  "excusedata e = Inr doc \<Longrightarrow> map_of doc ''excuses'' = Some (jstrs (excuse_text e))"
  by (auto simp: excusedata_def split: sum.splits)

lemma excusedata_source:
  assumes "excusedata e = Inr doc"
  shows "map_of doc ''source'' = Some (JStr (spec_source (name e)))"
proof (cases "split_first CHR ''/'' (split_first CHR ''_'' (name e)) = []")
  case True
  then have "excusedata e = Inl IndexError"
    by (simp add: excusedata_def derive_source_eq)
  with assms show ?thesis
    by simp
next
  case False
  then have "derive_source (name e) = Inr (spec_source (name e))"
    by (simp add: derive_source_eq)
  with assms show ?thesis
    by (auto simp: excusedata_def)
qed

lemma excusedata_exists:
  assumes "split_first CHR ''/'' (split_first CHR ''_'' (name e)) \<noteq> []"
  shows "\<exists>doc. excusedata e = Inr doc"
proof -
  from assms obtain c cs where "split_first CHR ''/'' (split_first CHR ''_'' (name e)) = c # cs"
    by (cases "split_first CHR ''/'' (split_first CHR ''_'' (name e))") auto
  then have "derive_source (name e) = Inr (if c = CHR ''-'' then cs else c # cs)"
    by (simp add: derive_source_stem)
  then show ?thesis
    by (simp add: excusedata_def)
qed

lemma run_addhtml: "htmlline (run (map Addhtml ns) e) = htmlline e @ ns"
  unfolding run_def by (induction ns arbitrary: e) (simp_all add: addhtml_def)

lemma sorted_list_of_fset_empty: "sorted_list_of_fset {||} = []"
  by (simp add: sorted_list_of_fset.rep_eq)

lemma sorted_list_of_fset_single: "sorted_list_of_fset {|x|} = [x]"
  by (simp add: sorted_list_of_fset.rep_eq)

lemma excusedata_missing_builds:
  assumes "excusedata e = Inr doc"
  shows "map_of doc ''missing-builds'' =
     (if missing_builds e \<noteq> {||} \<or> missing_builds_ood_arch e \<noteq> {||}
      then Some (JDict
         [(''on-architectures'', jstrs (sorted_list_of_fset (missing_builds e))),
          (''on-unimportant-architectures'',
             jstrs (sorted_list_of_fset (missing_builds_ood_arch e)))])
      else None)"
proof (cases "missing_builds e \<noteq> {||} \<or> missing_builds_ood_arch e \<noteq> {||}")
  case True
  with assms show ?thesis
    by (auto simp del: map_of_append simp add: excusedata_def map_of_app map_of_if
        split: sum.splits split del: if_split cong: if_cong)
next
  case False
  with assms show ?thesis
    by (auto simp del: map_of_append simp add: excusedata_def map_of_app map_of_if
        split: sum.splits split del: if_split cong: if_cong)
qed

lemma excusedata_invalidated:
  assumes "excusedata e = Inr doc"
  shows "map_of doc ''invalidated-by-other-package'' =
     (if all_invalid_deps e \<noteq> {||} then Some (JBool True) else None)"
proof (cases "all_invalid_deps e \<noteq> {||}")
  case True
  with assms show ?thesis
    by (auto simp del: map_of_append simp add: excusedata_def map_of_app map_of_if
        split: sum.splits split del: if_split cong: if_cong)
next
  case False
  with assms show ?thesis
    by (auto simp del: map_of_append simp add: excusedata_def map_of_app map_of_if
        split: sum.splits split del: if_split cong: if_cong)
qed

lemma excusedata_dependencies:
  assumes "excusedata e = Inr doc"
  shows "map_of doc ''dependencies'' =
     (if all_deps e \<noteq> [] \<or> all_invalid_deps e \<noteq> {||} \<or> break_deps e \<noteq> [] \<or> unsat_deps e \<noteq> []
      then Some (JDict (dependencies_data e)) else None)"
proof (cases "all_deps e \<noteq> [] \<or> all_invalid_deps e \<noteq> {||} \<or> break_deps e \<noteq> [] \<or> unsat_deps e \<noteq> []")
  case True
  with assms show ?thesis
    by (auto simp del: map_of_append simp add: excusedata_def map_of_app map_of_if
        split: sum.splits split del: if_split cong: if_cong)
next
  case False
  with assms show ?thesis
    by (auto simp del: map_of_append simp add: excusedata_def map_of_app map_of_if
        split: sum.splits split del: if_split cong: if_cong)
qed

lemma dependencies_data_blocked_by:
  "map_of (dependencies_data e) ''blocked-by'' =
     (if all_invalid_deps e \<noteq> {||}
      then Some (jstrs (sorted_list_of_fset (all_invalid_deps e))) else None)"
  by (cases "all_invalid_deps e \<noteq> {||}")
     (auto simp del: map_of_append simp add: dependencies_data_def Let_def map_of_app map_of_if
        split del: if_split cong: if_cong)

lemma dependencies_data_migrate_after:
  "map_of (dependencies_data e) ''migrate-after'' =
     (if sorted_list_of_fset (fset_of_list (dict_keys (all_deps e)) |-| all_invalid_deps e) \<noteq> []
      then Some (jstrs (sorted_list_of_fset
                   (fset_of_list (dict_keys (all_deps e)) |-| all_invalid_deps e)))
      else None)"
  by (cases "sorted_list_of_fset (fset_of_list (dict_keys (all_deps e)) |-| all_invalid_deps e) \<noteq> []")
     (auto simp del: map_of_append simp add: dependencies_data_def Let_def map_of_app map_of_if
        split del: if_split cong: if_cong)

subsection \<open>The parts of the HTML rendering\<close>

lemma render_dep_issues_empty: "render_dep_issues kstr e [] invalid = Inr ''''"
  by (simp add: render_dep_issues_def dict_keys_def)

lemma format_verdict_summary_fresh:
  "priv_policy_verdict e = REJECTED_PERMANENTLY \<Longrightarrow>
     format_verdict_summary e = ''BLOCKED: Rejected/introduces a regression''"
  by (simp add: format_verdict_summary_def VERDICT2DESC_def)

lemma set_vers_fields:
  "name (set_vers t u e) = name e" "maint (set_vers t u e) = maint e"
  "section_attr (set_vers t u e) = section_attr e" "daysold (set_vers t u e) = daysold e"
  "htmlline (set_vers t u e) = htmlline e" "all_deps (set_vers t u e) = all_deps e"
  "all_invalid_deps (set_vers t u e) = all_invalid_deps e"
  "break_deps (set_vers t u e) = break_deps e"
  "priv_policy_verdict (set_vers t u e) = priv_policy_verdict e"
  by (simp_all add: set_vers_def)

lemma set_vers_ver:
  "ver (set_vers t u e) =
     (if truthy t then the t else fst (ver e), if truthy u then the u else snd (ver e))"
  by (simp add: set_vers_def)

subsection \<open>The sort key\<close>

lemma sortkey_le_presented_before:
  assumes "\<forall>d. daysold a = Some d \<longrightarrow> 0 \<le> d" and "\<forall>d. daysold b = Some d \<longrightarrow> 0 \<le> d"
    and "sortkey a \<le> sortkey b"
  shows "presented_before a b"
  using assms
  by (auto simp: sortkey_def presented_before_def less_eq_prod_def split: option.splits)

section \<open>The claims\<close>

subsection \<open>C1: the verdict of a forced record\<close>

text \<open>
  Claim C1. On a record with \<open>forced\<close> set, assigning a rejected verdict through the
  setter stores \<open>PASS_HINTED\<close>, so after any assignment the record is valid; without
  \<open>forced\<close> the setter stores the verdict it is given. Over the methods of the class
  this is an invariant: whatever calls follow the constructor, a record that is forced
  is valid.
\<close>

theorem forced_verdict_is_never_rejected:
  "(forced e \<and> is_rejected v \<longrightarrow> policy_verdict (set_policy_verdict v e) = PASS_HINTED)
   \<and> (forced e \<longrightarrow> is_valid (set_policy_verdict v e))
   \<and> (\<not> forced e \<longrightarrow> policy_verdict (set_policy_verdict v e) = v)
   \<and> (forced (run calls (Excuse_init nm :: 'k Excuse))
        \<longrightarrow> is_valid (run calls (Excuse_init nm :: 'k Excuse)))"
proof -
  have setter: "policy_verdict (set_policy_verdict v e)
      = (if is_rejected v \<and> forced e then PASS_HINTED else v)"
    by (simp add: set_policy_verdict_def policy_verdict_def)
  have hinted: "\<not> is_rejected PASS_HINTED"
    by simp
  have valid: "is_valid (set_policy_verdict v e)" if "forced e"
    using that hinted by (simp add: set_policy_verdict_def is_valid_def)
  have init: "forced (Excuse_init nm :: 'k Excuse) \<longrightarrow> is_valid (Excuse_init nm :: 'k Excuse)"
    by (simp add: Excuse_init_def)
  from setter valid run_forced_valid [OF init] show ?thesis
    by simp
qed

theorem forced_verdict_is_never_rejected_witness:
  "policy_verdict (set_policy_verdict REJECTED_PERMANENTLY (snd (force (Excuse_init ''x'' :: string Excuse))))
     = PASS_HINTED
   \<and> is_valid (set_policy_verdict REJECTED_PERMANENTLY (snd (force (Excuse_init ''x'' :: string Excuse))))
   \<and> policy_verdict (set_policy_verdict REJECTED_TEMPORARILY (Excuse_init ''x'' :: string Excuse))
     = REJECTED_TEMPORARILY
   \<and> forced (run [Force, Set_policy_verdict REJECTED_NEEDS_APPROVAL] (Excuse_init ''x'' :: string Excuse))
   \<and> is_valid (run [Force, Set_policy_verdict REJECTED_NEEDS_APPROVAL] (Excuse_init ''x'' :: string Excuse))"
  using forced_verdict_is_never_rejected
          [where e = "snd (force (Excuse_init ''x'' :: string Excuse))"
             and v = REJECTED_PERMANENTLY
             and calls = "[Force, Set_policy_verdict REJECTED_NEEDS_APPROVAL]"
             and nm = "''x''"]
        forced_verdict_is_never_rejected
          [where e = "Excuse_init ''x'' :: string Excuse"
             and v = REJECTED_TEMPORARILY and calls = "[]" and nm = "''x''"]
  by (simp add: run_def force_def set_policy_verdict_def policy_verdict_def is_valid_def
        Excuse_init_def)

subsection \<open>C2: builds missing on out-of-date architectures\<close>

text \<open>
  Claim C2 does not hold of the code: \<open>missing_build_on_ood_arch\<close> has the body of
  \<open>missing_build_on_arch\<close>. It adds the architecture to \<open>missing_builds\<close> and leaves
  \<open>missing_builds_ood_arch\<close> as it was, so the document lists the architecture under
  \<open>on-architectures\<close>, and \<open>on-unimportant-architectures\<close> is the sorted set that no
  method fills.
\<close>

theorem missing_build_on_ood_arch_fills_missing_builds:
  "missing_builds_ood_arch (missing_build_on_ood_arch a e) = missing_builds_ood_arch e
   \<and> missing_builds (missing_build_on_ood_arch a e) = finsert a (missing_builds e)
   \<and> missing_build_on_ood_arch a e = missing_build_on_arch a e
   \<and> (\<forall>doc. excusedata (missing_build_on_ood_arch a e) = Inr doc \<longrightarrow>
         map_of doc ''missing-builds'' = Some (JDict
           [(''on-architectures'', jstrs (sorted_list_of_fset (finsert a (missing_builds e)))),
            (''on-unimportant-architectures'',
               jstrs (sorted_list_of_fset (missing_builds_ood_arch e)))]))"
proof -
  have f: "missing_builds_ood_arch (missing_build_on_ood_arch a e) = missing_builds_ood_arch e"
    "missing_builds (missing_build_on_ood_arch a e) = finsert a (missing_builds e)"
    by (simp_all add: missing_build_on_ood_arch_def)
  have s: "missing_build_on_ood_arch a e = missing_build_on_arch a e"
    by (simp add: missing_build_on_ood_arch_def missing_build_on_arch_def)
  have d: "map_of doc ''missing-builds'' = Some (JDict
           [(''on-architectures'', jstrs (sorted_list_of_fset (finsert a (missing_builds e)))),
            (''on-unimportant-architectures'',
               jstrs (sorted_list_of_fset (missing_builds_ood_arch e)))])"
    if "excusedata (missing_build_on_ood_arch a e) = Inr doc" for doc
    using excusedata_missing_builds [OF that] by (simp add: f)
  from f s d show ?thesis
    by blast
qed


theorem missing_build_on_ood_arch_fills_missing_builds_witness:
  "\<exists>doc. excusedata (missing_build_on_ood_arch ''amd64'' (Excuse_init ''foo'' :: string Excuse)) = Inr doc
     \<and> map_of doc ''missing-builds'' = Some (JDict
               [(''on-architectures'', JList [JStr ''amd64'']),
                (''on-unimportant-architectures'', JList [])])"
proof -
  let ?e = "Excuse_init ''foo'' :: string Excuse"
  have "split_first CHR ''/'' (split_first CHR ''_'' (name (missing_build_on_ood_arch ''amd64'' ?e))) \<noteq> []"
    by (simp add: missing_build_on_ood_arch_def Excuse_init_def split_first_def)
  then obtain doc where d: "excusedata (missing_build_on_ood_arch ''amd64'' ?e) = Inr doc"
    using excusedata_exists by blast
  have m: "missing_builds ?e = {||}" "missing_builds_ood_arch ?e = {||}"
    by (simp_all add: Excuse_init_def)
  from missing_build_on_ood_arch_fills_missing_builds [where a = "''amd64''" and e = ?e] d
  have "map_of doc ''missing-builds'' = Some (JDict
           [(''on-architectures'', jstrs (sorted_list_of_fset (finsert ''amd64'' (missing_builds ?e)))),
            (''on-unimportant-architectures'',
               jstrs (sorted_list_of_fset (missing_builds_ood_arch ?e)))])"
    by blast
  then have "map_of doc ''missing-builds'' = Some (JDict
               [(''on-architectures'', JList [JStr ''amd64'']),
                (''on-unimportant-architectures'', JList [])])"
    unfolding m by (simp add: jstrs_def sorted_list_of_fset_empty sorted_list_of_fset_single)
  with d show ?thesis
    by blast
qed

subsection \<open>C3: a dependency that is invalidated\<close>

text \<open>
  Claim C3, as amended. For a record whose only dependency edge is \<open>libbar\<close>, of one
  kind on \<open>amd64\<close>, and whose invalidated names are \<open>libbar\<close> alone, the
  document has \<open>invalidated-by-other-package\<close> true and under \<open>dependencies\<close> the key
  \<open>blocked-by\<close> with the list of \<open>libbar\<close>, and no key \<open>migrate-after\<close>: the
  sorted keys of \<open>all_deps\<close> that are not invalid are empty, and \<open>excusedata\<close> writes the
  key only for a non-empty list.
\<close>

theorem blocked_dependency_in_document:
  assumes "all_deps e = [(''libbar'', [(depends, [''amd64''])])]"
    and "all_invalid_deps e = {|''libbar''|}"
    and "excusedata e = Inr doc"
  shows "map_of doc ''invalidated-by-other-package'' = Some (JBool True)
     \<and> map_of doc ''dependencies'' = Some (JDict (dependencies_data e))
     \<and> map_of (dependencies_data e) ''blocked-by'' = Some (JList [JStr ''libbar''])
     \<and> map_of (dependencies_data e) ''migrate-after'' = None"
proof -
  have inv: "all_invalid_deps e \<noteq> {||}"
    using assms(2) by simp
  have keys: "fset_of_list (dict_keys (all_deps e)) |-| all_invalid_deps e = {||}"
    using assms(1,2) by (simp add: dict_keys_def)
  have a: "map_of doc ''invalidated-by-other-package'' = Some (JBool True)"
    using excusedata_invalidated [OF assms(3)] inv by simp
  have b: "map_of doc ''dependencies'' = Some (JDict (dependencies_data e))"
    using excusedata_dependencies [OF assms(3)] inv by simp
  have c: "map_of (dependencies_data e) ''blocked-by'' = Some (JList [JStr ''libbar''])"
    using dependencies_data_blocked_by [of e] assms(2)
    by (simp add: jstrs_def sorted_list_of_fset_single)
  have d: "map_of (dependencies_data e) ''migrate-after'' = None"
    using dependencies_data_migrate_after [of e] keys
    by (simp add: sorted_list_of_fset_empty)
  from a b c d show ?thesis
    by simp
qed

theorem blocked_dependency_in_document_witness:
  "\<exists>doc. excusedata
       (invalidate_dependency ''libbar''
         (add_dependency ''depends'' ''libbar'' ''amd64''
           (set_policy_verdict PASS
             (set_vers (Some ''1.0'') (Some ''1.1'') (Excuse_init ''libfoo'' :: string Excuse)))))
       = Inr doc
     \<and> map_of doc ''invalidated-by-other-package'' = Some (JBool True)
     \<and> (\<exists>deps. map_of doc ''dependencies'' = Some (JDict deps)
           \<and> map_of deps ''blocked-by'' = Some (JList [JStr ''libbar''])
           \<and> map_of deps ''migrate-after'' = None)"
proof -
  let ?e = "invalidate_dependency ''libbar''
         (add_dependency ''depends'' ''libbar'' ''amd64''
           (set_policy_verdict PASS
             (set_vers (Some ''1.0'') (Some ''1.1'') (Excuse_init ''libfoo'' :: string Excuse))))"
  have ad: "all_deps ?e = [(''libbar'', [(''depends'', [''amd64''])])]"
    by (simp add: invalidate_dependency_def add_dependency_def set_policy_verdict_def
        set_vers_def Excuse_init_def)
  have ai: "all_invalid_deps ?e = {|''libbar''|}"
    by (simp add: invalidate_dependency_def add_dependency_def set_policy_verdict_def
        set_vers_def Excuse_init_def)
  have "name ?e = ''libfoo''"
    by (simp add: invalidate_dependency_def add_dependency_def set_policy_verdict_def
        set_vers_def Excuse_init_def)
  then have "split_first CHR ''/'' (split_first CHR ''_'' (name ?e)) \<noteq> []"
    by (simp add: split_first_def)
  then obtain doc where d: "excusedata ?e = Inr doc"
    using excusedata_exists by blast
  from blocked_dependency_in_document [OF ad ai d] d show ?thesis
    by blast
qed

text \<open>
  Claim C3 as the specification states it promises \<open>migrate-after\<close> with the empty
  list. In scenario B of the specification the document has no such key.
\<close>

theorem migrate_after_key_absent_counterexample:
  "excusedata
     (invalidate_dependency ''libbar''
       (add_dependency ''depends'' ''libbar'' ''amd64''
         (set_policy_verdict PASS
           (set_vers (Some ''1.0'') (Some ''1.1'') (Excuse_init ''libfoo'' :: string Excuse)))))
   = Inr [(''excuses'', JList []), (''item-name'', JStr ''libfoo''),
          (''source'', JStr ''libfoo''), (''migration-policy-verdict'', JStr ''PASS''),
          (''old-version'', JStr ''1.0''), (''new-version'', JStr ''1.1''),
          (''invalidated-by-other-package'', JBool True),
          (''dependencies'', JDict [(''blocked-by'', JList [JStr ''libbar''])]),
          (''reason'', JList []), (''is-candidate'', JBool True)]
   \<and> map_of [(''blocked-by'', JList [JStr ''libbar''])] ''migrate-after'' \<noteq> Some (JList [])"
  by code_simp

subsection \<open>C4: forcing\<close>

text \<open>
  Claim C4. \<open>force\<close> sets \<open>forced\<close>. It returns true exactly when the verdict at the
  time of the call is rejected, and then the stored verdict becomes \<open>PASS_HINTED\<close>;
  otherwise it returns false and the verdict stays. No other field changes.
\<close>

theorem force_sets_forced_and_reports_change:
  "forced (snd (force e))
   \<and> fst (force e) = is_rejected (policy_verdict e)
   \<and> policy_verdict (snd (force e))
       = (if is_rejected (policy_verdict e) then PASS_HINTED else policy_verdict e)
   \<and> snd (force e) = e\<lparr>forced := True,
          priv_policy_verdict := (if is_rejected (policy_verdict e) then PASS_HINTED else policy_verdict e)\<rparr>"
  by (simp add: force_def policy_verdict_def Let_def)

theorem force_sets_forced_and_reports_change_witness:
  "force (Excuse_init ''x'' :: string Excuse)
     = (True, (Excuse_init ''x'')\<lparr>forced := True, priv_policy_verdict := PASS_HINTED\<rparr>)
   \<and> force (set_policy_verdict PASS (Excuse_init ''x'' :: string Excuse))
     = (False, (Excuse_init ''x'')\<lparr>forced := True, priv_policy_verdict := PASS\<rparr>)"
  using force_sets_forced_and_reports_change [of "Excuse_init ''x'' :: string Excuse"]
        force_sets_forced_and_reports_change [of "set_policy_verdict PASS (Excuse_init ''x'' :: string Excuse)"]
  by (simp add: prod_eq_iff force_def policy_verdict_def set_policy_verdict_def Excuse_init_def)

subsection \<open>C5: the source of the document\<close>

text \<open>
  Claim C5, as amended. For every name whose part before the first \<open>_\<close> and the first
  \<open>/\<close> is not empty, \<open>excusedata\<close> yields a document whose \<open>source\<close> is the name
  stripped of what follows the first \<open>_\<close>, then of what follows the first \<open>/\<close>,
  then of a single leading \<open>-\<close>, in that order.
\<close>

theorem source_is_derived_in_fixed_order:
  assumes "split_first CHR ''/'' (split_first CHR ''_'' (name e)) \<noteq> []"
  shows "\<exists>doc. excusedata e = Inr doc
           \<and> map_of doc ''source'' = Some (JStr (spec_source (name e)))"
proof -
  from assms obtain doc where d: "excusedata e = Inr doc"
    using excusedata_exists by blast
  from d have "map_of doc ''source'' = Some (JStr (spec_source (name e)))"
    by (rule excusedata_source)
  with d show ?thesis
    by blast
qed

theorem source_is_derived_in_fixed_order_witness:
  "(\<exists>doc. excusedata (Excuse_init ''foo_1.0'' :: string Excuse) = Inr doc
          \<and> map_of doc ''source'' = Some (JStr ''foo''))
   \<and> (\<exists>doc. excusedata (Excuse_init ''foo/amd64'' :: string Excuse) = Inr doc
          \<and> map_of doc ''source'' = Some (JStr ''foo''))
   \<and> (\<exists>doc. excusedata (Excuse_init ''-foo'' :: string Excuse) = Inr doc
          \<and> map_of doc ''source'' = Some (JStr ''foo''))
   \<and> (\<exists>doc. excusedata (Excuse_init ''foo'' :: string Excuse) = Inr doc
          \<and> map_of doc ''source'' = Some (JStr ''foo''))"
proof -
  have s: "spec_source ''foo_1.0'' = ''foo''" "spec_source ''foo/amd64'' = ''foo''"
    "spec_source ''-foo'' = ''foo''" "spec_source ''foo'' = ''foo''"
    by (simp_all add: spec_source_def split_first_def)
  have n: "split_first CHR ''/'' (split_first CHR ''_'' ''foo_1.0'') \<noteq> []"
    "split_first CHR ''/'' (split_first CHR ''_'' ''foo/amd64'') \<noteq> []"
    "split_first CHR ''/'' (split_first CHR ''_'' ''-foo'') \<noteq> []"
    "split_first CHR ''/'' (split_first CHR ''_'' ''foo'') \<noteq> []"
    by (simp_all add: split_first_def)
  show ?thesis
    using source_is_derived_in_fixed_order [where e = "Excuse_init ''foo_1.0'' :: string Excuse"]
      source_is_derived_in_fixed_order [where e = "Excuse_init ''foo/amd64'' :: string Excuse"]
      source_is_derived_in_fixed_order [where e = "Excuse_init ''-foo'' :: string Excuse"]
      source_is_derived_in_fixed_order [where e = "Excuse_init ''foo'' :: string Excuse"]
    unfolding name_init s
    using n by blast
qed

text \<open>
  Claim C5 as the specification states it speaks of every name. On the empty name
  \<open>source[0]\<close> raises and there is no document.
\<close>

theorem source_of_empty_name_counterexample:
  "excusedata (Excuse_init '''' :: string Excuse) = Inl IndexError \<and> spec_source '''' = ''''"
  by (simp add: excusedata_Inl derive_source_eq name_init spec_source_def split_first_def)

subsection \<open>C6: the sort key\<close>

text \<open>
  Claim C6, as amended. For records whose age is unset or not negative, \<open>sortkey\<close> is
  \<open>(-1, name)\<close> exactly when the age is unset and \<open>(daysold, name)\<close> otherwise, and
  sorting by this key puts the records of unknown age first, then orders by ascending
  age, ties broken by the name; the sorted list is a permutation of the given one.
\<close>

theorem sortkey_orders_known_nonnegative_ages:
  assumes "\<forall>e \<in> set es. \<forall>d. daysold e = Some d \<longrightarrow> 0 \<le> d"
  shows "(\<forall>e \<in> set es.
            (sortkey e = (- 1, name e)) = (daysold e = None)
            \<and> (\<forall>d. daysold e = Some d \<longrightarrow> sortkey e = (d, name e)))
         \<and> sorted_wrt presented_before (sorted_by_sortkey es)
         \<and> mset (sorted_by_sortkey es) = mset es"
proof -
  have key: "(sortkey e = (- 1, name e)) = (daysold e = None)
      \<and> (\<forall>d. daysold e = Some d \<longrightarrow> sortkey e = (d, name e))" if "e \<in> set es" for e
    using assms that by (auto simp: sortkey_def split: option.splits)
  have "sorted (map sortkey (sort_key sortkey es))"
    by (rule sorted_sort_key)
  then have "sorted_wrt (\<lambda>a b. sortkey a \<le> sortkey b) (sort_key sortkey es)"
    by (simp add: sorted_wrt_map)
  moreover have "presented_before a b"
    if "a \<in> set (sort_key sortkey es)" and "b \<in> set (sort_key sortkey es)"
      and "sortkey a \<le> sortkey b" for a b
    using that assms by (intro sortkey_le_presented_before) auto
  ultimately have "sorted_wrt presented_before (sort_key sortkey es)"
    by (rule sorted_wrt_mono_rel [rotated]) blast
  with key show ?thesis
    by (simp add: sorted_by_sortkey_def)
qed

theorem sortkey_orders_known_nonnegative_ages_witness:
  "sorted_wrt presented_before
     (sorted_by_sortkey
        [setdaysold (Some 5) (Some 2) (Excuse_init ''b'' :: string Excuse), Excuse_init ''z'',
         setdaysold (Some 5) (Some 2) (Excuse_init ''a''),
         setdaysold (Some 0) (Some 2) (Excuse_init ''m'')])
   \<and> sorted_by_sortkey
        [setdaysold (Some 5) (Some 2) (Excuse_init ''b'' :: string Excuse), Excuse_init ''z'',
         setdaysold (Some 5) (Some 2) (Excuse_init ''a''),
         setdaysold (Some 0) (Some 2) (Excuse_init ''m'')]
     = [Excuse_init ''z'', setdaysold (Some 0) (Some 2) (Excuse_init ''m''),
        setdaysold (Some 5) (Some 2) (Excuse_init ''a''),
        setdaysold (Some 5) (Some 2) (Excuse_init ''b'')]"
proof -
  let ?es = "[setdaysold (Some 5) (Some 2) (Excuse_init ''b'' :: string Excuse), Excuse_init ''z'',
         setdaysold (Some 5) (Some 2) (Excuse_init ''a''),
         setdaysold (Some 0) (Some 2) (Excuse_init ''m'')]"
  have h: "\<forall>e \<in> set ?es. \<forall>d. daysold e = Some d \<longrightarrow> 0 \<le> d"
    by (simp add: setdaysold_def Excuse_init_def)
  have s: "sorted_wrt presented_before (sorted_by_sortkey ?es)"
    using sortkey_orders_known_nonnegative_ages [OF h] by blast
  have v: "sorted_by_sortkey ?es
     = [Excuse_init ''z'', setdaysold (Some 0) (Some 2) (Excuse_init ''m''),
        setdaysold (Some 5) (Some 2) (Excuse_init ''a''),
        setdaysold (Some 5) (Some 2) (Excuse_init ''b'')]"
    by (simp add: sorted_by_sortkey_def sortkey_def setdaysold_def Excuse_init_def)
  from s v show ?thesis
    by blast
qed

text \<open>
  Claim C6 as the specification states it speaks of every record. With an age of
  \<open>-1\<close> the key is \<open>(-1, name)\<close> although the age is set, and with an age of \<open>-2\<close> a
  record is put before one of unknown age.
\<close>

theorem sortkey_negative_age_counterexample:
  "sortkey (setdaysold (Some (- 1)) (Some 0) (Excuse_init ''a'' :: string Excuse)) = (- 1, ''a'')
   \<and> daysold (setdaysold (Some (- 1)) (Some 0) (Excuse_init ''a'' :: string Excuse)) \<noteq> None
   \<and> sorted_by_sortkey
        [Excuse_init ''u'' :: string Excuse, setdaysold (Some (- 2)) (Some 0) (Excuse_init ''k'')]
       = [setdaysold (Some (- 2)) (Some 0) (Excuse_init ''k''), Excuse_init ''u'']"
  by (simp add: sortkey_def setdaysold_def Excuse_init_def sorted_by_sortkey_def)

subsection \<open>C7: idempotent insertions\<close>

text \<open>
  Claim C7. \<open>add_sane_dep\<close> and \<open>add_unsatisfiable_on_arch\<close> are idempotent: a second call
  with the same argument leaves the record, and so the sequence and its length, as the
  first call left it. The order of first insertion is kept: an argument already present
  changes nothing, a new one goes to the end.
\<close>

theorem add_sane_dep_add_unsatisfiable_on_arch_idempotent:
  "add_sane_dep n (add_sane_dep n e) = add_sane_dep n e
   \<and> add_unsatisfiable_on_arch a (add_unsatisfiable_on_arch a e) = add_unsatisfiable_on_arch a e
   \<and> length (sane_deps (add_sane_dep n (add_sane_dep n e))) = length (sane_deps (add_sane_dep n e))
   \<and> length (unsatisfiable_on_archs (add_unsatisfiable_on_arch a (add_unsatisfiable_on_arch a e)))
       = length (unsatisfiable_on_archs (add_unsatisfiable_on_arch a e))
   \<and> sane_deps (add_sane_dep n e)
       = (if n \<in> set (sane_deps e) then sane_deps e else sane_deps e @ [n])
   \<and> unsatisfiable_on_archs (add_unsatisfiable_on_arch a e)
       = (if a \<in> set (unsatisfiable_on_archs e) then unsatisfiable_on_archs e
          else unsatisfiable_on_archs e @ [a])"
  by (simp add: add_sane_dep_def add_unsatisfiable_on_arch_def)

theorem add_sane_dep_add_unsatisfiable_on_arch_idempotent_witness:
  "sane_deps (add_sane_dep ''b'' (add_sane_dep ''b'' (add_sane_dep ''a'' (Excuse_init ''x'' :: string Excuse))))
     = [''a'', ''b'']
   \<and> unsatisfiable_on_archs (add_unsatisfiable_on_arch ''i386''
        (add_unsatisfiable_on_arch ''i386'' (add_unsatisfiable_on_arch ''amd64'' (Excuse_init ''x'' :: string Excuse))))
     = [''amd64'', ''i386'']"
  using add_sane_dep_add_unsatisfiable_on_arch_idempotent
          [of "''b''" "add_unsatisfiable_on_arch ''amd64'' (add_sane_dep ''a'' (Excuse_init ''x'' :: string Excuse))"
              "''i386''"]
  by (simp add: add_sane_dep_def add_unsatisfiable_on_arch_def Excuse_init_def)

subsection \<open>C8: the HTML of a fresh record\<close>

text \<open>
  Claim C8. For a record on which only the name and the versions have been set,
  \<open>html\<close> does not raise, and its result is the header line with the name and the two
  versions, the line of the verdict summary, and the closing markup, with nothing
  between them.
\<close>

theorem html_of_fresh_excuse:
  "html kstr (set_vers tver uver (Excuse_init nm)) =
     Inr (''<a id=\"'' @ nm @ ''\" name=\"'' @ nm @ ''\">'' @ nm @ ''</a> (''
          @ (if truthy tver then the tver else ''-'') @ '' to ''
          @ (if truthy uver then the uver else ''-'') @ '')\<newline><ul>\<newline>''
          @ ''<li>Migration status: BLOCKED: Rejected/introduces a regression\<newline>''
          @ ''</ul>\<newline>'')"
proof -
  let ?e = "set_vers tver uver (Excuse_init nm)"
  have f: "name ?e = nm" "maint ?e = None" "section_attr ?e = None" "daysold ?e = None"
    "htmlline ?e = []" "all_deps ?e = []" "break_deps ?e = []"
    "priv_policy_verdict ?e = REJECTED_PERMANENTLY"
    by (simp_all add: set_vers_fields Excuse_init_def)
  have v: "fst (ver ?e) = (if truthy tver then the tver else ''-'')"
    "snd (ver ?e) = (if truthy uver then the uver else ''-'')"
    by (simp_all add: set_vers_ver Excuse_init_def)
  have s: "format_verdict_summary ?e = ''BLOCKED: Rejected/introduces a regression''"
    using f(8) by (rule format_verdict_summary_fresh)
  have a: "age_line ?e = Inr ''''"
    by (simp add: age_line_def f)
  have h: "\<not> section_has_slash ?e"
    by (simp add: section_has_slash_def f)
  show ?thesis
    unfolding html_def Let_def f v s a render_dep_issues_empty
    using h by simp
qed

theorem html_of_fresh_excuse_witness:
  "html (\<lambda>k. k) (set_vers (Some ''1.0'') (Some ''1.1'') (Excuse_init ''libfoo'' :: string Excuse)) =
     Inr ''<a id=\"libfoo\" name=\"libfoo\">libfoo</a> (1.0 to 1.1)\<newline><ul>\<newline><li>Migration status: BLOCKED: Rejected/introduces a regression\<newline></ul>\<newline>''"
  using html_of_fresh_excuse [where kstr = "\<lambda>k. k" and tver = "Some ''1.0''" and uver = "Some ''1.1''"
      and nm = "''libfoo''"]
  by simp

subsection \<open>C9: the verdict of a fresh record\<close>

text \<open>
  Claim C9. The constructor sets the verdict to \<open>REJECTED_PERMANENTLY\<close>, so a fresh
  record is not valid. That stays so, and the structured document reports
  \<open>is-candidate\<close> as false, over every sequence of calls that contains neither an
  assignment to the verdict nor \<open>force\<close>. The document exists when the name has a
  non-empty part before its first \<open>_\<close> and \<open>/\<close>.
\<close>

theorem fresh_excuse_is_not_candidate:
  "policy_verdict (Excuse_init nm :: 'k Excuse) = REJECTED_PERMANENTLY
   \<and> \<not> is_valid (Excuse_init nm :: 'k Excuse)
   \<and> (list_all (\<lambda>c. \<not> assigns_verdict c) calls \<longrightarrow>
        \<not> is_valid (run calls (Excuse_init nm :: 'k Excuse))
        \<and> (\<forall>doc. excusedata (run calls (Excuse_init nm :: 'k Excuse)) = Inr doc
              \<longrightarrow> map_of doc ''is-candidate'' = Some (JBool False))
        \<and> (split_first CHR ''/'' (split_first CHR ''_'' nm) \<noteq> []
              \<longrightarrow> (\<exists>doc. excusedata (run calls (Excuse_init nm :: 'k Excuse)) = Inr doc)))"
proof -
  let ?e = "Excuse_init nm :: 'k Excuse"
  have v: "policy_verdict ?e = REJECTED_PERMANENTLY"
    by (simp add: policy_verdict_def Excuse_init_def)
  have r: "\<not> is_valid ?e"
    by (simp add: is_valid_def Excuse_init_def)
  have later: "\<not> is_valid (run calls ?e)
      \<and> (\<forall>doc. excusedata (run calls ?e) = Inr doc
            \<longrightarrow> map_of doc ''is-candidate'' = Some (JBool False))
      \<and> (split_first CHR ''/'' (split_first CHR ''_'' nm) \<noteq> []
            \<longrightarrow> (\<exists>doc. excusedata (run calls ?e) = Inr doc))"
    if quiet: "list_all (\<lambda>c. \<not> assigns_verdict c) calls"
  proof -
    from run_keeps_verdict [OF quiet, of ?e]
    have "priv_policy_verdict (run calls ?e) = REJECTED_PERMANENTLY"
      by (simp add: Excuse_init_def)
    then have nv: "\<not> is_valid (run calls ?e)"
      by (simp add: is_valid_def)
    have "name (run calls ?e) = nm"
      by (simp add: run_name Excuse_init_def)
    with excusedata_exists [of "run calls ?e"]
    have ex: "split_first CHR ''/'' (split_first CHR ''_'' nm) \<noteq> []
        \<longrightarrow> (\<exists>doc. excusedata (run calls ?e) = Inr doc)"
      by simp
    from nv ex excusedata_is_candidate [of "run calls ?e"] show ?thesis
      by simp
  qed
  from v r later show ?thesis
    by blast
qed

theorem fresh_excuse_is_not_candidate_witness:
  "list_all (\<lambda>c. \<not> assigns_verdict c) [Set_vers (Some ''1.0'') (Some ''1.1''), Addhtml ''note'' :: string call]
   \<and> split_first CHR ''/'' (split_first CHR ''_'' ''libfoo'') \<noteq> []
   \<and> \<not> is_valid (run [Set_vers (Some ''1.0'') (Some ''1.1''), Addhtml ''note''] (Excuse_init ''libfoo'' :: string Excuse))
   \<and> (\<exists>doc. excusedata (run [Set_vers (Some ''1.0'') (Some ''1.1''), Addhtml ''note'']
                (Excuse_init ''libfoo'' :: string Excuse)) = Inr doc
          \<and> map_of doc ''is-candidate'' = Some (JBool False))"
proof -
  let ?calls = "[Set_vers (Some ''1.0'') (Some ''1.1''), Addhtml ''note'' :: string call]"
  have q: "list_all (\<lambda>c. \<not> assigns_verdict c) ?calls"
    by simp
  have s: "split_first CHR ''/'' (split_first CHR ''_'' ''libfoo'') \<noteq> []"
    by (simp add: split_first_def)
  from fresh_excuse_is_not_candidate [where calls = ?calls and nm = "''libfoo''"] q s
  show ?thesis
    by blast
qed

subsection \<open>C10: the key excuses of the document\<close>

text \<open>
  Claim C10. Whenever \<open>excusedata\<close> yields a document, the document has the key
  \<open>excuses\<close>, with no condition on the record, and its value is the list \<open>htmlline\<close>
  in its order. The document exists when the name has a non-empty part before its
  first \<open>_\<close> and \<open>/\<close>, and \<open>htmlline\<close> holds the notes in the order of the calls
  of \<open>addhtml\<close>.
\<close>

theorem excuses_key_holds_html_notes:
  "(\<forall>doc. excusedata e = Inr doc \<longrightarrow> map_of doc ''excuses'' = Some (JList (map JStr (htmlline e))))
   \<and> (split_first CHR ''/'' (split_first CHR ''_'' (name e)) \<noteq> []
        \<longrightarrow> (\<exists>doc. excusedata e = Inr doc))
   \<and> htmlline (run (map Addhtml ns) (Excuse_init nm :: 'k Excuse)) = ns"
proof -
  have t: "excuse_text e = htmlline e"
    by (simp add: excuse_text_def)
  have n: "htmlline (run (map Addhtml ns) (Excuse_init nm :: 'k Excuse)) = ns"
    by (simp add: run_addhtml Excuse_init_def)
  from t n excusedata_excuses [of e] excusedata_exists [of e] show ?thesis
    by (simp add: jstrs_def)
qed

theorem excuses_key_holds_html_notes_witness:
  "split_first CHR ''/'' (split_first CHR ''_'' ''libfoo'') \<noteq> []
   \<and> (\<exists>doc. excusedata (run (map Addhtml [''first'', ''second'']) (Excuse_init ''libfoo'' :: string Excuse))
               = Inr doc
          \<and> map_of doc ''excuses'' = Some (JList [JStr ''first'', JStr ''second'']))"
proof -
  let ?e = "run (map Addhtml [''first'', ''second'']) (Excuse_init ''libfoo'' :: string Excuse)"
  have s: "split_first CHR ''/'' (split_first CHR ''_'' (name ?e)) \<noteq> []"
    by (simp add: run_name Excuse_init_def split_first_def)
  have s': "split_first CHR ''/'' (split_first CHR ''_'' ''libfoo'') \<noteq> []"
    by (simp add: split_first_def)
  have h: "htmlline ?e = [''first'', ''second'']"
    by (simp add: run_def addhtml_def Excuse_init_def)
  from excuses_key_holds_html_notes [where e = ?e and ns = "[]" and nm = "''libfoo''"] s s' h
  show ?thesis
    by auto
qed

end
